theory Spec2Isabelle
  imports Main "HOL-Library.AList"
begin

section \<open>Python strings (ASCII)\<close>

text \<open>
  Python \<open>str\<close> values are modelled as \<open>string\<close> (lists of bytes). The three string
  methods the service uses are modelled on the ASCII range: \<open>upper\<close> and \<open>lower\<close> map the
  26 Latin letters and leave every other character alone, \<open>strip\<close> removes the ASCII
  characters for which \<open>str.isspace\<close> holds (codes 9 to 13, 28 to 31 and 32) from both ends.
\<close>

definition upper_char :: "char \<Rightarrow> char" where
  "upper_char c =
     (case map_of (zip ''abcdefghijklmnopqrstuvwxyz'' ''ABCDEFGHIJKLMNOPQRSTUVWXYZ'') c of
        Some u \<Rightarrow> u
      | None \<Rightarrow> c)"

definition lower_char :: "char \<Rightarrow> char" where
  "lower_char c =
     (case map_of (zip ''ABCDEFGHIJKLMNOPQRSTUVWXYZ'' ''abcdefghijklmnopqrstuvwxyz'') c of
        Some l \<Rightarrow> l
      | None \<Rightarrow> c)"

definition upper :: "string \<Rightarrow> string" where
  "upper s = map upper_char s"

definition lower :: "string \<Rightarrow> string" where
  "lower s = map lower_char s"

definition is_space :: "char \<Rightarrow> bool" where
  "is_space c =
     (c \<in> set [CHR 0x09, CHR 0x0A, CHR 0x0B, CHR 0x0C, CHR 0x0D,
               CHR 0x1C, CHR 0x1D, CHR 0x1E, CHR 0x1F, CHR 0x20])"

definition strip :: "string \<Rightarrow> string" where
  "strip s = rev (dropWhile is_space (rev (dropWhile is_space s)))"

text \<open>\<open>a or b\<close> on an optional string: the first operand when it is truthy (neither
  \<open>None\<close> nor empty), the second otherwise.\<close>

definition str_or :: "string option \<Rightarrow> string \<Rightarrow> string" where
  "str_or a b = (case a of None \<Rightarrow> b | Some s \<Rightarrow> if s = [] then b else s)"

section \<open>Data model\<close>

text \<open>Exceptions, with the message they are raised with. \<open>LibraryError\<close> stands for any
  exception class of the external libraries (\<open>bleak\<close>, \<open>pysnooz\<close>).\<close>

datatype exn =
    KeyError string
  | ValueError string
  | RuntimeError string
  | TypeError string
  | OverflowError string
  | AttributeError string
  | AssertionError
  | LibraryError string

text \<open>\<open>bleak\<close>'s \<open>BLEDevice\<close> and \<open>AdvertisementData\<close>, with the fields the service reads.
  \<open>manufacturer_data\<close> is a dict from company id to payload bytes, kept as its items in
  insertion order.\<close>

record ble_device =
  ble_address :: string
  ble_name :: "string option"

record advertisement_data =
  local_name :: "string option"
  manufacturer_data :: "(int \<times> int list) list"

text \<open>\<open>pysnooz\<close>'s \<open>SnoozDeviceModel\<close>; a member of \<open>SnoozFirmwareVersion\<close> is represented
  by its name.\<close>

datatype snooz_device_model = ORIGINAL | PRO | BREEZ | UNSUPPORTED

fun model_name :: "snooz_device_model \<Rightarrow> string" where
  "model_name ORIGINAL = ''ORIGINAL''"
| "model_name PRO = ''PRO''"
| "model_name BREEZ = ''BREEZ''"
| "model_name UNSUPPORTED = ''UNSUPPORTED''"

record snooz_advertisement_data =
  adv_model :: snooz_device_model
  adv_firmware_version :: string
  adv_password :: string

record discovered_snooz =
  disc_ble_device :: ble_device
  disc_advertisement_data :: advertisement_data
  disc_snooz_adv :: snooz_advertisement_data
  disc_display_name :: string

text \<open>\<open>pysnooz\<close>'s \<open>SnoozDeviceState\<close> and the part of a \<open>SnoozDevice\<close> that the service
  reads: connectivity and the cached state.\<close>

record snooz_device_state =
  st_on :: "bool option"
  st_volume :: "int option"
  st_light_on :: "bool option"
  st_light_brightness :: "int option"
  st_night_mode_enabled :: "bool option"

record snooz_device =
  sd_ble_device :: ble_device
  sd_is_connected :: bool
  sd_connection_status :: string
  sd_state :: "snooz_device_state option"

text \<open>\<open>BleSnooz\<close>. \<open>event_task\<close> is the pending \<open>_emit\<close> task of the debouncer, represented
  by the time (in milliseconds) at which its sleep ends; \<open>None\<close> when there is no task or
  the task is done.\<close>

record ble_snooz =
  device_name :: string
  address :: string
  match_name :: "string option"
  password_hex :: string
  device :: "snooz_device option"
  discovered :: "discovered_snooz option"
  event_task :: "nat option"

text \<open>\<open>BleSnooz.__init__\<close>\<close>

definition new_ble_snooz :: "string \<Rightarrow> string \<Rightarrow> string \<Rightarrow> string option \<Rightarrow> ble_snooz" where
  "new_ble_snooz dn addr pw mn =
     \<lparr> device_name = dn,
       address = (if addr \<noteq> [] then upper addr else []),
       match_name = mn,
       password_hex = lower pw,
       device = None,
       discovered = None,
       event_task = None \<rparr>"

definition is_ready :: "ble_snooz \<Rightarrow> bool" where
  "is_ready d = (device d \<noteq> None \<and> discovered d \<noteq> None)"

text \<open>\<open>SnoozManager._devices\<close>: a dict from device name to session, kept as its items in
  insertion order (\<open>get_device_names\<close> returns the keys in that order).\<close>

type_synonym devices = "(string \<times> ble_snooz) list"

definition add_device :: "ble_snooz \<Rightarrow> devices \<Rightarrow> exn + devices" where
  "add_device dev devs =
     (if device_name dev \<in> fst ` set devs
      then Inl (ValueError (''Duplicate device_name: '' @ device_name dev))
      else Inr (devs @ [(device_name dev, dev)]))"

definition get_device_names :: "devices \<Rightarrow> string list" where
  "get_device_names devs = map fst devs"

definition get_device :: "devices \<Rightarrow> string \<Rightarrow> exn + ble_snooz" where
  "get_device devs dn =
     (case map_of devs dn of
        None \<Rightarrow> Inl (KeyError (''Unknown device_name: '' @ dn))
      | Some dev \<Rightarrow> Inr dev)"

section \<open>Discovery scan\<close>

text \<open>
  \<open>SnoozManager._scan_for_targets\<close>. The target set is given as the list of its members in
  the order the \<open>for\<close> loop visits them. The two lookup dicts are built by that loop; a later
  target overwrites an earlier one stored under the same key.
\<close>

type_synonym lookup = "string \<rightharpoonup> string"

type_synonym advert = "ble_device \<times> advertisement_data"

type_synonym found = "(string \<times> advert) list"

definition add_target :: "ble_snooz \<Rightarrow> string \<Rightarrow> lookup \<times> lookup \<Rightarrow> lookup \<times> lookup" where
  "add_target dev target = (\<lambda>(a2n, n2n).
     (let addr = address dev;
          a2n' = (if addr \<noteq> [] then a2n(upper addr \<mapsto> target) else a2n);
          n2n' = (case match_name dev of
                    None \<Rightarrow> n2n
                  | Some mn \<Rightarrow> if mn \<noteq> [] then n2n(lower (strip mn) \<mapsto> target) else n2n)
      in (a2n', n2n')))"

fun build_lookups :: "devices \<Rightarrow> string list \<Rightarrow> lookup \<times> lookup \<Rightarrow> exn + lookup \<times> lookup" where
  "build_lookups devs [] maps = Inr maps"
| "build_lookups devs (t # ts) maps =
     (case map_of devs t of
        None \<Rightarrow> Inl (KeyError t)
      | Some dev \<Rightarrow> build_lookups devs ts (add_target dev t maps))"

text \<open>The name the callback \<open>cb\<close> computes for one advertisement (\<open>matched_device_name\<close>):
  the address dict is consulted first, the name dict only when the address is empty or not
  a key of the address dict.\<close>

definition matched_device_name :: "lookup \<times> lookup \<Rightarrow> advert \<Rightarrow> string option" where
  "matched_device_name = (\<lambda>(a2n, n2n) (dv, adv).
     (let addr = upper (str_or (Some (ble_address dv)) []);
          adv_name = strip (str_or (local_name adv) (str_or (ble_name dv) []));
          adv_name_l = lower adv_name
      in if addr \<noteq> [] \<and> a2n addr \<noteq> None then a2n addr
         else if adv_name_l \<noteq> [] \<and> n2n adv_name_l \<noteq> None then n2n adv_name_l
         else None))"

text \<open>The callback: the state it closes over is \<open>found\<close> and the event \<open>done\<close>.\<close>

definition cb :: "lookup \<times> lookup \<Rightarrow> string list \<Rightarrow> found \<times> bool \<Rightarrow> advert \<Rightarrow> found \<times> bool" where
  "cb maps targets = (\<lambda>(fnd, done) a.
     (case matched_device_name maps a of
        None \<Rightarrow> (fnd, done)
      | Some m \<Rightarrow>
          if m \<noteq> [] \<and> m \<notin> fst ` set fnd
          then (let fnd' = fnd @ [(m, a)]
                in (fnd', done \<or> set targets \<subseteq> fst ` set fnd'))
          else (fnd, done)))"

text \<open>
  The scanner runs from \<open>scanner.start()\<close> until \<open>done\<close> is set or the timeout elapses.
  The second argument is the sequence of advertisements the radio delivers before the
  timeout; the result is \<open>found\<close> together with the advertisements that were not consumed
  because the scan had already ended.
\<close>

fun scan_loop :: "lookup \<times> lookup \<Rightarrow> string list \<Rightarrow> found \<Rightarrow> advert list \<Rightarrow> found \<times> advert list" where
  "scan_loop maps targets fnd [] = (fnd, [])"
| "scan_loop maps targets fnd (a # as) =
     (case cb maps targets (fnd, False) a of
        (fnd', done) \<Rightarrow> if done then (fnd', as) else scan_loop maps targets fnd' as)"

definition scan_for_targets :: "devices \<Rightarrow> string list \<Rightarrow> advert list \<Rightarrow> exn + found \<times> advert list" where
  "scan_for_targets devs targets adverts =
     (case build_lookups devs targets (Map.empty, Map.empty) of
        Inl e \<Rightarrow> Inl e
      | Inr maps \<Rightarrow> Inr (scan_loop maps targets [] adverts))"

section \<open>JSON values\<close>

text \<open>
  The values \<open>json.loads\<close> produces. A Python \<open>float\<close> is either \<open>m * 2 ^ e\<close> for
  integers \<open>m\<close> and \<open>e\<close>, or one of the special values; a \<open>dict\<close> is kept as its items in
  insertion order, with distinct keys.
\<close>

datatype pyfloat = Finite int int | NaN | Infinity bool

datatype json =
    JNull
  | JBool bool
  | JInt int
  | JFloat pyfloat
  | JStr string
  | JArr "json list"
  | JObj "(string \<times> json) list"

text \<open>\<open>dict.get(key)\<close>: \<open>None\<close> when the key is absent.\<close>

definition dict_get :: "(string \<times> json) list \<Rightarrow> string \<Rightarrow> json" where
  "dict_get m k = (case map_of m k of None \<Rightarrow> JNull | Some v \<Rightarrow> v)"

text \<open>Truthiness of a value, as \<open>not x\<close> and \<open>if x\<close> test it.\<close>

fun truthy :: "json \<Rightarrow> bool" where
  "truthy JNull = False"
| "truthy (JBool b) = b"
| "truthy (JInt i) = (i \<noteq> 0)"
| "truthy (JFloat (Finite m e)) = (m \<noteq> 0)"
| "truthy (JFloat NaN) = True"
| "truthy (JFloat (Infinity neg)) = True"
| "truthy (JStr s) = (s \<noteq> [])"
| "truthy (JArr xs) = (xs \<noteq> [])"
| "truthy (JObj kvs) = (kvs \<noteq> [])"

text \<open>
  What the Python runtime and the external libraries contribute to the handling of one
  message:
  \<^item> \<open>time_now\<close>: the value of \<open>time.time()\<close>;
  \<^item> \<open>int_of_str\<close>: \<open>int(s)\<close> for a string, \<open>None\<close> when it raises \<open>ValueError\<close>;
  \<^item> \<open>str_of\<close>: \<open>str(x)\<close> for a number or a container, as an f-string formats it;
  \<^item> \<open>execute\<close>: the outcome of the body of a command's \<open>_do\<close> coroutine on the bound
    \<open>SnoozDevice\<close>, that is of building the \<open>pysnooz\<close> command from the given arguments and
    awaiting \<open>async_execute_command\<close> on it: a \<open>SnoozCommandResult\<close> or an exception.
\<close>

datatype jsonable = Jsonable json | Unserializable string

record snooz_command_result =
  res_status :: string
  res_duration :: json
  res_response :: jsonable

datatype snooz_call =
    TurnOn json
  | TurnOff
  | TurnOffAfter json
  | SetVolume int
  | TurnLightOn
  | TurnLightOff
  | SetLightBrightness int

record runtime =
  time_now :: pyfloat
  int_of_str :: "string \<Rightarrow> int option"
  str_of :: "json \<Rightarrow> string"
  execute :: "snooz_device \<Rightarrow> snooz_call \<Rightarrow> exn + snooz_command_result"

text \<open>\<open>int(x)\<close>: booleans and integers convert to themselves, a float is truncated towards
  zero, a string is parsed.\<close>

definition type_name :: "json \<Rightarrow> string" where
  "type_name j = (case j of JNull \<Rightarrow> ''NoneType'' | JBool b \<Rightarrow> ''bool'' | JInt i \<Rightarrow> ''int''
     | JFloat f \<Rightarrow> ''float'' | JStr s \<Rightarrow> ''str'' | JArr xs \<Rightarrow> ''list'' | JObj kvs \<Rightarrow> ''dict'')"

definition py_repr :: "string \<Rightarrow> string" where
  "py_repr s = [CHR 0x27] @ s @ [CHR 0x27]"

definition float_trunc :: "int \<Rightarrow> int \<Rightarrow> int" where
  "float_trunc m e =
     (if 0 \<le> e then m * 2 ^ nat e
      else if 0 \<le> m then m div 2 ^ nat (- e)
      else - ((- m) div 2 ^ nat (- e)))"

definition py_int :: "runtime \<Rightarrow> json \<Rightarrow> exn + int" where
  "py_int rt j =
     (case j of
        JBool b \<Rightarrow> Inr (if b then 1 else 0)
      | JInt i \<Rightarrow> Inr i
      | JFloat f \<Rightarrow>
          (case f of
             Finite m e \<Rightarrow> Inr (float_trunc m e)
           | NaN \<Rightarrow> Inl (ValueError ''cannot convert float NaN to integer'')
           | Infinity neg \<Rightarrow> Inl (OverflowError ''cannot convert float infinity to integer''))
      | JStr s \<Rightarrow>
          (case int_of_str rt s of
             Some i \<Rightarrow> Inr i
           | None \<Rightarrow> Inl (ValueError (''invalid literal for int() with base 10: '' @ py_repr s)))
      | _ \<Rightarrow> Inl (TypeError
            (''int() argument must be a string, a bytes-like object or a real number, not ''
               @ py_repr (type_name j))))"

text \<open>\<open>str(x)\<close> as an f-string formats a value, and \<open>str(exc)\<close> of an exception (a
  \<open>KeyError\<close> shows the \<open>repr\<close> of its argument).\<close>

definition py_format :: "runtime \<Rightarrow> json \<Rightarrow> string" where
  "py_format rt j =
     (case j of
        JStr s \<Rightarrow> s
      | JNull \<Rightarrow> ''None''
      | JBool b \<Rightarrow> (if b then ''True'' else ''False'')
      | _ \<Rightarrow> str_of rt j)"

fun exn_str :: "exn \<Rightarrow> string" where
  "exn_str (KeyError k) = py_repr k"
| "exn_str (ValueError m) = m"
| "exn_str (RuntimeError m) = m"
| "exn_str (TypeError m) = m"
| "exn_str (OverflowError m) = m"
| "exn_str (AttributeError m) = m"
| "exn_str AssertionError = []"
| "exn_str (LibraryError m) = m"

section \<open>Device session: snapshot\<close>

definition opt_bool :: "bool option \<Rightarrow> json" where
  "opt_bool b = (case b of None \<Rightarrow> JNull | Some v \<Rightarrow> JBool v)"

definition opt_int :: "int option \<Rightarrow> json" where
  "opt_int i = (case i of None \<Rightarrow> JNull | Some v \<Rightarrow> JInt v)"

definition opt_str :: "string option \<Rightarrow> json" where
  "opt_str s = (case s of None \<Rightarrow> JNull | Some v \<Rightarrow> JStr v)"

text \<open>\<open>BleSnooz.snapshot\<close>\<close>

definition snapshot :: "ble_snooz \<Rightarrow> json" where
  "snapshot d =
     (let disc = discovered d;
          dev = device d;
          state = (case dev of None \<Rightarrow> None | Some sd \<Rightarrow> sd_state sd)
      in JObj
        [(''device_name'', JStr (device_name d)),
         (''address'', JStr (address d)),
         (''display_name'', opt_str (map_option disc_display_name disc)),
         (''connected'', JBool (case dev of None \<Rightarrow> False | Some sd \<Rightarrow> sd_is_connected sd)),
         (''connection_status'',
            JStr (case dev of None \<Rightarrow> ''UNKNOWN'' | Some sd \<Rightarrow> sd_connection_status sd)),
         (''model'', opt_str (map_option (\<lambda>x. model_name (adv_model (disc_snooz_adv x))) disc)),
         (''firmware_version'',
            opt_str (map_option (\<lambda>x. adv_firmware_version (disc_snooz_adv x)) disc)),
         (''state'', JObj
            [(''on'', opt_bool (Option.bind state st_on)),
             (''volume'', opt_int (Option.bind state st_volume)),
             (''light_on'', opt_bool (Option.bind state st_light_on)),
             (''light_brightness'', opt_int (Option.bind state st_light_brightness)),
             (''night_mode_enabled'', opt_bool (Option.bind state st_night_mode_enabled))])])"

section \<open>Manager commands\<close>

text \<open>
  \<open>SnoozManager.get_device\<close> on the value a message carries as \<open>device_name\<close>: the dict's
  keys are strings, so a number or a boolean is never a key, and a list or a dict is not
  hashable.
\<close>

definition get_device_json :: "runtime \<Rightarrow> devices \<Rightarrow> json \<Rightarrow> exn + ble_snooz" where
  "get_device_json rt devs dn =
     (case dn of
        JStr s \<Rightarrow> get_device devs s
      | JArr xs \<Rightarrow> Inl (TypeError (''unhashable type: '' @ py_repr ''list''))
      | JObj kvs \<Rightarrow> Inl (TypeError (''unhashable type: '' @ py_repr ''dict''))
      | _ \<Rightarrow> Inl (KeyError (''Unknown device_name: '' @ py_format rt dn)))"

text \<open>
  What a command does on the radio is recorded as a trace: taking and giving back the
  semaphore \<open>_ble_op_sem\<close>, and the call handed to the device in between.
\<close>

datatype action = GateAcquire | RadioCall snooz_device snooz_call | GateRelease

type_synonym 'a traced = "action list \<times> (exn + 'a)"

text \<open>The body \<open>_do\<close> of a command: the assertion, then the call on the device.\<close>

definition do_call :: "runtime \<Rightarrow> ble_snooz \<Rightarrow> snooz_call \<Rightarrow> snooz_command_result traced" where
  "do_call rt dev call =
     (case device dev of
        None \<Rightarrow> ([], Inl AssertionError)
      | Some sd \<Rightarrow> ([RadioCall sd call], execute rt sd call))"

text \<open>\<open>SnoozManager._with_ble_lock\<close>: \<open>async with self._ble_op_sem\<close> around the body; the
  semaphore is given back on both exits of the body.\<close>

definition with_ble_lock :: "'a traced \<Rightarrow> 'a traced" where
  "with_ble_lock body = (case body of (tr, r) \<Rightarrow> ([GateAcquire] @ tr @ [GateRelease], r))"

text \<open>
  The six commands that reach the radio share one shape: look the session up, refuse an
  unready session, validate the argument (\<open>set_volume\<close> and \<open>set_light_brightness\<close> only),
  and run \<open>_do\<close> under the semaphore. \<open>cmd_enter\<close> is the part before the semaphore: the
  exception raised there, or the session and the call \<open>_do\<close> will make.
\<close>

datatype request =
    NoiseOn json
  | NoiseOff json
  | SetVolumeReq int
  | LightOn
  | LightOff
  | SetLightBrightnessReq int

fun validate :: "request \<Rightarrow> exn option" where
  "validate (SetVolumeReq v) =
     (if \<not> (0 \<le> v \<and> v \<le> 100) then Some (ValueError ''volume must be 0..100'') else None)"
| "validate (SetLightBrightnessReq b) =
     (if \<not> (0 \<le> b \<and> b \<le> 100) then Some (ValueError ''brightness must be 0..100'') else None)"
| "validate _ = None"

fun call_of :: "request \<Rightarrow> snooz_call" where
  "call_of (NoiseOn v) = TurnOn v"
| "call_of (NoiseOff d) = (if d = JNull then TurnOff else TurnOffAfter d)"
| "call_of (SetVolumeReq v) = SetVolume v"
| "call_of LightOn = TurnLightOn"
| "call_of LightOff = TurnLightOff"
| "call_of (SetLightBrightnessReq b) = SetLightBrightness b"

definition cmd_enter :: "runtime \<Rightarrow> devices \<Rightarrow> json \<Rightarrow> request \<Rightarrow> exn + ble_snooz \<times> snooz_call" where
  "cmd_enter rt devs dn req =
     (case get_device_json rt devs dn of
        Inl e \<Rightarrow> Inl e
      | Inr dev \<Rightarrow>
          if \<not> is_ready dev then Inl (RuntimeError ''device_unavailable'')
          else (case validate req of
                  Some e \<Rightarrow> Inl e
                | None \<Rightarrow> Inr (dev, call_of req)))"

definition cmd :: "runtime \<Rightarrow> devices \<Rightarrow> json \<Rightarrow> request \<Rightarrow> snooz_command_result traced" where
  "cmd rt devs dn req =
     (case cmd_enter rt devs dn req of
        Inl e \<Rightarrow> ([], Inl e)
      | Inr (dev, call) \<Rightarrow> with_ble_lock (do_call rt dev call))"

definition cmd_noise_on :: "runtime \<Rightarrow> devices \<Rightarrow> json \<Rightarrow> json \<Rightarrow> snooz_command_result traced" where
  "cmd_noise_on rt devs dn volume = cmd rt devs dn (NoiseOn volume)"

definition cmd_noise_off :: "runtime \<Rightarrow> devices \<Rightarrow> json \<Rightarrow> json \<Rightarrow> snooz_command_result traced" where
  "cmd_noise_off rt devs dn duration_s = cmd rt devs dn (NoiseOff duration_s)"

definition cmd_set_volume :: "runtime \<Rightarrow> devices \<Rightarrow> json \<Rightarrow> int \<Rightarrow> snooz_command_result traced" where
  "cmd_set_volume rt devs dn volume = cmd rt devs dn (SetVolumeReq volume)"

definition cmd_light_on :: "runtime \<Rightarrow> devices \<Rightarrow> json \<Rightarrow> snooz_command_result traced" where
  "cmd_light_on rt devs dn = cmd rt devs dn LightOn"

definition cmd_light_off :: "runtime \<Rightarrow> devices \<Rightarrow> json \<Rightarrow> snooz_command_result traced" where
  "cmd_light_off rt devs dn = cmd rt devs dn LightOff"

definition cmd_set_light_brightness :: "runtime \<Rightarrow> devices \<Rightarrow> json \<Rightarrow> int \<Rightarrow> snooz_command_result traced" where
  "cmd_set_light_brightness rt devs dn brightness = cmd rt devs dn (SetLightBrightnessReq brightness)"

text \<open>\<open>SnoozManager.cmd_get_state\<close>\<close>

definition cmd_get_state :: "runtime \<Rightarrow> devices \<Rightarrow> json \<Rightarrow> exn + json" where
  "cmd_get_state rt devs dn =
     (case get_device_json rt devs dn of Inl e \<Rightarrow> Inl e | Inr dev \<Rightarrow> Inr (snapshot dev))"

text \<open>\<open>SnoozManager.ensure_success\<close> and \<open>SnoozManager.result_to_dict\<close> (the fields of the
  result are kept in the form \<open>to_jsonable\<close> gives them).\<close>

definition ensure_success :: "snooz_command_result \<Rightarrow> exn option" where
  "ensure_success r =
     (if res_status r \<noteq> ''SUCCESSFUL'' then Some (RuntimeError (''command_failed: '' @ res_status r))
      else None)"

definition result_to_dict :: "snooz_command_result \<Rightarrow> jsonable" where
  "result_to_dict r =
     (case res_response r of
        Unserializable t \<Rightarrow> Unserializable t
      | Jsonable resp \<Rightarrow>
          Jsonable (JObj [(''status'', JStr (res_status r)),
                          (''duration_s'', res_duration r),
                          (''response'', resp)]))"

section \<open>Gateway: one inbound message\<close>

text \<open>
  A text frame is given by what \<open>json.loads\<close> makes of it: a \<open>JSONDecodeError\<close> or a value.
  The outcome of \<open>WebSocketServer._handle_message\<close> is the list of responses handed to
  \<open>ws.send\<close>, the trace of the radio, and the exception that leaves the method, if any (the
  connection handler then ends its loop and the connection closes).
\<close>

datatype frame = NotJson | Json json

record outcome =
  sent :: "json list"
  radio :: "action list"
  raised :: "exn option"

definition ok_response :: "json \<Rightarrow> json \<Rightarrow> json" where
  "ok_response request_id data =
     JObj [(''type'', JStr ''response''), (''request_id'', request_id),
           (''status'', JStr ''ok''), (''data'', data)]"

definition error_response :: "json \<Rightarrow> string \<Rightarrow> json" where
  "error_response request_id err =
     JObj [(''type'', JStr ''response''), (''request_id'', request_id),
           (''status'', JStr ''error''), (''error'', JStr err)]"

definition device_commands :: "json list" where
  "device_commands = map JStr [''get_state'', ''noise_on'', ''noise_off'', ''set_volume'',
     ''light_on'', ''light_off'', ''set_light_brightness'']"

text \<open>\<open>self._manager.ensure_success(result)\<close> followed by \<open>result_to_dict(result)\<close>.\<close>

definition checked :: "snooz_command_result traced \<Rightarrow> action list \<times> (exn + jsonable)" where
  "checked t =
     (case t of
        (tr, Inl e) \<Rightarrow> (tr, Inl e)
      | (tr, Inr r) \<Rightarrow>
          (case ensure_success r of
             Some e \<Rightarrow> (tr, Inl e)
           | None \<Rightarrow> (tr, Inr (result_to_dict r))))"

text \<open>\<open>int(msg[key])\<close>, then the command on the integer.\<close>

definition with_int_arg ::
  "runtime \<Rightarrow> (string \<times> json) list \<Rightarrow> string \<Rightarrow> (int \<Rightarrow> snooz_command_result traced)
     \<Rightarrow> action list \<times> (exn + jsonable)" where
  "with_int_arg rt msg key f =
     (case map_of msg key of
        None \<Rightarrow> ([], Inl (KeyError key))
      | Some x \<Rightarrow>
          (case py_int rt x of
             Inl e \<Rightarrow> ([], Inl e)
           | Inr v \<Rightarrow> checked (f v)))"

text \<open>The body of the \<open>try\<close> block: the data of the ok response, or the exception raised.\<close>

definition dispatch ::
  "runtime \<Rightarrow> devices \<Rightarrow> (string \<times> json) list \<Rightarrow> action list \<times> (exn + jsonable)" where
  "dispatch rt devs msg =
     (let command = dict_get msg ''command'';
          dn = dict_get msg ''device_name''
      in if command = JStr ''heartbeat''
           then ([], Inr (Jsonable (JObj [(''server_time'', JFloat (time_now rt))])))
         else if command = JStr ''list_devices''
           then ([], Inr (Jsonable (JObj [(''devices'', JArr (map JStr (get_device_names devs)))])))
         else if command \<in> set device_commands \<and> \<not> truthy dn
           then ([], Inl (ValueError ''device_name is required''))
         else if command = JStr ''get_state''
           then ([], map_sum id Jsonable (cmd_get_state rt devs dn))
         else if command = JStr ''noise_on''
           then checked (cmd_noise_on rt devs dn (dict_get msg ''volume''))
         else if command = JStr ''noise_off''
           then checked (cmd_noise_off rt devs dn (dict_get msg ''duration_s''))
         else if command = JStr ''set_volume''
           then with_int_arg rt msg ''volume'' (cmd_set_volume rt devs dn)
         else if command = JStr ''light_on''
           then checked (cmd_light_on rt devs dn)
         else if command = JStr ''light_off''
           then checked (cmd_light_off rt devs dn)
         else if command = JStr ''set_light_brightness''
           then with_int_arg rt msg ''brightness'' (cmd_set_light_brightness rt devs dn)
         else ([], Inl (ValueError (''unknown_command: '' @ py_format rt command))))"

text \<open>\<open>WebSocketServer._handle_message\<close>\<close>

definition handle_command :: "runtime \<Rightarrow> devices \<Rightarrow> (string \<times> json) list \<Rightarrow> outcome" where
  "handle_command rt devs msg =
     (let msg_type = dict_get msg ''type'';
          request_id = dict_get msg ''request_id''
      in if msg_type \<noteq> JStr ''command''
           then \<lparr>sent = [error_response request_id ''type_must_be_command''], radio = [], raised = None\<rparr>
         else (case dispatch rt devs msg of
                 (tr, Inr (Jsonable data)) \<Rightarrow>
                   \<lparr>sent = [ok_response request_id data], radio = tr, raised = None\<rparr>
               | (tr, Inr (Unserializable t)) \<Rightarrow>
                   \<lparr>sent = [error_response request_id
                              (''Object of type '' @ t @ '' is not JSON serializable'')],
                     radio = tr, raised = None\<rparr>
               | (tr, Inl e) \<Rightarrow>
                   \<lparr>sent = [error_response request_id (exn_str e)], radio = tr, raised = None\<rparr>))"

definition handle_message :: "runtime \<Rightarrow> devices \<Rightarrow> frame \<Rightarrow> outcome" where
  "handle_message rt devs fr =
     (case fr of
        NotJson \<Rightarrow> \<lparr>sent = [error_response JNull ''invalid_json''], radio = [], raised = None\<rparr>
      | Json (JObj msg) \<Rightarrow> handle_command rt devs msg
      | Json j \<Rightarrow>
          \<lparr>sent = [], radio = [],
            raised = Some (AttributeError
              (py_repr (type_name j) @ '' object has no attribute '' @ py_repr ''get''))\<rparr>)"

text \<open>A field of a JSON object (\<open>None\<close> when absent or when the value is not an object).\<close>

definition field :: "json \<Rightarrow> string \<Rightarrow> json" where
  "field j k = (case j of JObj m \<Rightarrow> dict_get m k | _ \<Rightarrow> JNull)"



section \<open>Device session: debounced state events\<close>

text \<open>
  \<open>BleSnooz._on_state_change\<close> with a clock in milliseconds. The callback cancels the
  pending \<open>_emit\<close> task, if any, and creates a new one, which sleeps 0.25 s and then hands
  the event with the snapshot taken at that moment to the registered callbacks. The task is
  represented by the time its sleep ends; starting the task and delivering the event are
  taken to need no time.
\<close>

definition debounce_ms :: nat where
  "debounce_ms = 250"

definition on_state_change :: "nat \<Rightarrow> ble_snooz \<Rightarrow> ble_snooz" where
  "on_state_change now d = d\<lparr>event_task := Some (now + debounce_ms)\<rparr>"

definition device_state_event :: "ble_snooz \<Rightarrow> json" where
  "device_state_event d =
     JObj [(''type'', JStr ''device_state''), (''device_name'', JStr (device_name d)),
           (''state'', snapshot d)]"

text \<open>A session together with the events it has emitted, each with the time of emission.
  \<open>run_until t\<close> lets the clock reach \<open>t\<close>: a task whose sleep has ended emits.\<close>

type_synonym timed_session = "ble_snooz \<times> (nat \<times> json) list"

definition run_until :: "nat \<Rightarrow> timed_session \<Rightarrow> timed_session" where
  "run_until t = (\<lambda>(d, out).
     (case event_task d of
        None \<Rightarrow> (d, out)
      | Some due \<Rightarrow>
          if due \<le> t then (d\<lparr>event_task := None\<rparr>, out @ [(due, device_state_event d)])
          else (d, out)))"

text \<open>A raw notification at time \<open>t\<close>: the device's cached state has become \<open>st\<close> and the
  subscribed callback \<open>_on_state_change\<close> is called.\<close>

definition set_state :: "snooz_device_state \<Rightarrow> ble_snooz \<Rightarrow> ble_snooz" where
  "set_state st d = d\<lparr>device := map_option (\<lambda>sd. sd\<lparr>sd_state := Some st\<rparr>) (device d)\<rparr>"

definition notify :: "nat \<times> snooz_device_state \<Rightarrow> timed_session \<Rightarrow> timed_session" where
  "notify = (\<lambda>(t, st) ses.
     (case run_until t ses of (d, out) \<Rightarrow> (on_state_change t (set_state st d), out)))"

definition notify_all :: "(nat \<times> snooz_device_state) list \<Rightarrow> timed_session \<Rightarrow> timed_session" where
  "notify_all ns ses = foldl (\<lambda>s n. notify n s) ses ns"

text \<open>A burst: consecutive notifications are in time order and less than the debounce
  window apart.\<close>

fun burst :: "(nat \<times> snooz_device_state) list \<Rightarrow> bool" where
  "burst [] = True"
| "burst [n] = True"
| "burst ((t1, s1) # (t2, s2) # ns) = (t1 \<le> t2 \<and> t2 < t1 + debounce_ms \<and> burst ((t2, s2) # ns))"

section \<open>Device session: binding and start\<close>

text \<open>
  What \<open>pysnooz\<close> contributes: the constants of \<open>pysnooz.const\<close>, the display name, the
  constructor of \<open>SnoozDevice\<close>, and for \<open>start\<close> the outcome of \<open>async_get_info\<close> (an
  exception, if any, and the device afterwards), whether the device exposes \<open>_api\<close> and
  \<open>_store\<close>, the outcome of \<open>async_read_state\<close>, and \<open>_store.patch\<close> (whether the state
  changed, and the device afterwards).
\<close>

record pysnooz =
  FIRMWARE_PAIRING_FLAGS :: int
  FIRMWARE_VERSION_BY_FLAGS :: "int \<rightharpoonup> string"
  SNOOZ_ADVERTISEMENT_LENGTH :: nat
  get_device_display_name :: "string \<Rightarrow> string \<Rightarrow> string"
  new_snooz_device :: "ble_device \<Rightarrow> snooz_advertisement_data \<Rightarrow> snooz_device"
  async_get_info :: "snooz_device \<Rightarrow> exn option \<times> snooz_device"
  has_api_and_store :: "snooz_device \<Rightarrow> bool"
  async_read_state :: "snooz_device \<Rightarrow> exn + snooz_device_state"
  store_patch :: "snooz_device \<Rightarrow> snooz_device_state \<Rightarrow> bool \<times> snooz_device"

text \<open>\<open>_parse_firmware_flags\<close>\<close>

definition parse_firmware_flags :: "pysnooz \<Rightarrow> int \<Rightarrow> string option \<times> bool" where
  "parse_firmware_flags lib flags =
     (let is_pairing = (and (FIRMWARE_PAIRING_FLAGS lib) flags = FIRMWARE_PAIRING_FLAGS lib);
          flags_without_pairing = and flags (not (FIRMWARE_PAIRING_FLAGS lib));
          fw = FIRMWARE_VERSION_BY_FLAGS lib flags_without_pairing
      in (fw, is_pairing))"

text \<open>\<open>parse_snooz_advertisement_from_bleak\<close>\<close>

definition parse_snooz_advertisement_from_bleak ::
  "pysnooz \<Rightarrow> string \<Rightarrow> advertisement_data \<Rightarrow> string \<Rightarrow> snooz_advertisement_data option" where
  "parse_snooz_advertisement_from_bleak lib name adv pw =
     (let mfg = manufacturer_data adv;
          payload = (case map_of mfg 0xFFFF of
                       Some p \<Rightarrow> Some p
                     | None \<Rightarrow> (case mfg of [] \<Rightarrow> None | (k, p) # rest \<Rightarrow> Some p))
      in case payload of
           None \<Rightarrow> None
         | Some p \<Rightarrow>
             if p = [] \<or> length p \<noteq> SNOOZ_ADVERTISEMENT_LENGTH lib then None
             else (case fst (parse_firmware_flags lib (hd p)) of
                     None \<Rightarrow> None
                   | Some fw \<Rightarrow>
                       (let lower_name = lower name;
                            model =
                              (if take 5 lower_name = ''breez'' then BREEZ
                               else if take 5 lower_name = ''snooz''
                                 then (if fw \<in> set [''V2'', ''V3'', ''V4'', ''V5''] then ORIGINAL else PRO)
                               else (if fw = ''V6'' then PRO else UNSUPPORTED))
                        in if model = UNSUPPORTED then None
                           else Some \<lparr>adv_model = model, adv_firmware_version = fw, adv_password = pw\<rparr>)))"

text \<open>\<open>BleSnooz.bind_discovery\<close>: the returned flag and the session afterwards.\<close>

definition bind_discovery :: "pysnooz \<Rightarrow> ble_snooz \<Rightarrow> advert \<Rightarrow> bool \<times> ble_snooz" where
  "bind_discovery lib d = (\<lambda>(ble_dev, adv).
     (let name = str_or (local_name adv) (str_or (ble_name ble_dev) ''Snooz'')
      in case parse_snooz_advertisement_from_bleak lib name adv (password_hex d) of
           None \<Rightarrow> (False, d)
         | Some snooz_adv \<Rightarrow>
             (True,
              d\<lparr>discovered := Some \<lparr>disc_ble_device = ble_dev, disc_advertisement_data = adv,
                                   disc_snooz_adv = snooz_adv,
                                   disc_display_name =
                                     get_device_display_name lib name (ble_address ble_dev)\<rparr>,
                device := Some (new_snooz_device lib ble_dev snooz_adv),
                address := upper (ble_address ble_dev)\<rparr>)))"

text \<open>\<open>BleSnooz.refresh_state\<close> and \<open>BleSnooz.start\<close> at time \<open>now\<close>: the exception raised, if
  any, and the session afterwards.\<close>

definition refresh_state :: "pysnooz \<Rightarrow> nat \<Rightarrow> ble_snooz \<Rightarrow> exn option \<times> ble_snooz" where
  "refresh_state lib now d =
     (case device d of
        None \<Rightarrow> (None, d)
      | Some sd \<Rightarrow>
          if \<not> sd_is_connected sd then (None, d)
          else if \<not> has_api_and_store lib sd then (None, d)
          else (case async_read_state lib sd of
                  Inl e \<Rightarrow> (Some e, d)
                | Inr st \<Rightarrow>
                    (case store_patch lib sd st of
                       (changed, sd') \<Rightarrow>
                         (None, (if changed then on_state_change now else id)
                                  (d\<lparr>device := Some sd'\<rparr>)))))"

definition start :: "pysnooz \<Rightarrow> nat \<Rightarrow> ble_snooz \<Rightarrow> exn option \<times> ble_snooz" where
  "start lib now d =
     (case device d of
        None \<Rightarrow> (Some (RuntimeError (''['' @ device_name d @ ''] Device not discovered/bound yet'')), d)
      | Some sd \<Rightarrow>
          (case async_get_info lib sd of
             (Some e, sd') \<Rightarrow> (Some e, d\<lparr>device := Some sd'\<rparr>)
           | (None, sd') \<Rightarrow> refresh_state lib now (d\<lparr>device := Some sd'\<rparr>)))"

section \<open>Rescan supervisor\<close>

text \<open>
  One pass of the body of \<open>SnoozManager._rescan_loop\<close> after the sleep. \<open>missing_names\<close> is a
  set; \<open>order\<close> gives the order in which the scan iterates over it. The body of the loop
  over \<open>found.items()\<close> is \<open>rescan_bind\<close>; an exception of \<open>start\<close> is logged and dropped, an
  exception anywhere else in the pass is caught by the outer handler and ends the pass.
\<close>

definition missing_names :: "devices \<Rightarrow> string list" where
  "missing_names devs = map fst (filter (\<lambda>(name, dev). \<not> is_ready dev) devs)"

definition rescan_bind :: "pysnooz \<Rightarrow> nat \<Rightarrow> devices \<Rightarrow> string \<times> advert \<Rightarrow> exn + devices" where
  "rescan_bind lib now devs = (\<lambda>(devname, a).
     (case map_of devs devname of
        None \<Rightarrow> Inl (KeyError devname)
      | Some dev \<Rightarrow>
          if \<not> is_ready dev
          then (case bind_discovery lib dev a of
                  (True, dev1) \<Rightarrow> Inr (AList.update devname (snd (start lib now dev1)) devs)
                | (False, dev1) \<Rightarrow> Inr (AList.update devname dev1 devs))
          else Inr devs))"

fun bind_found :: "pysnooz \<Rightarrow> nat \<Rightarrow> devices \<Rightarrow> found \<Rightarrow> devices" where
  "bind_found lib now devs [] = devs"
| "bind_found lib now devs (m # ms) =
     (case rescan_bind lib now devs m of
        Inl e \<Rightarrow> devs
      | Inr devs' \<Rightarrow> bind_found lib now devs' ms)"

definition rescan_tick ::
  "pysnooz \<Rightarrow> (string list \<Rightarrow> string list) \<Rightarrow> nat \<Rightarrow> advert list \<Rightarrow> devices \<Rightarrow> devices" where
  "rescan_tick lib order now adverts devs =
     (let missing = missing_names devs
      in if missing = [] then devs
         else (case scan_for_targets devs (order missing) adverts of
                 Inl e \<Rightarrow> devs
               | Inr (fnd, rest) \<Rightarrow> bind_found lib now devs fnd))"

text \<open>Any number of passes, each with its time and the advertisements its scan receives.\<close>

definition rescan_ticks ::
  "pysnooz \<Rightarrow> (string list \<Rightarrow> string list) \<Rightarrow> (nat \<times> advert list) list \<Rightarrow> devices \<Rightarrow> devices" where
  "rescan_ticks lib order ticks devs =
     foldl (\<lambda>ds (now, adverts). rescan_tick lib order now adverts ds) devs ticks"

section \<open>Operation serializer under interleaving\<close>

text \<open>
  Several commands in flight at once. A command is a task that runs the code before
  \<open>async with self._ble_op_sem\<close> (\<open>cmd_enter\<close>), then waits for the semaphore, then holds it
  while \<open>_do\<close> runs on the radio, and gives it back when \<open>_do\<close> returns or raises. The event
  loop runs one task at a time up to its next suspension point, in any order: a schedule
  names, step by step, the task that runs, with the runtime and the registry as they are at
  that step. \<open>asyncio.Semaphore(1)\<close> is its counter, starting at 1; a waiting task proceeds
  only when the counter is positive and decrements it, and the release increments it.
\<close>

record task =
  task_device :: json
  task_request :: request

datatype pc =
    NotStarted
  | WaitingGate ble_snooz snooz_call
  | InRadio ble_snooz snooz_call
  | Finished "exn + snooz_command_result"

datatype gate_event = Acquired nat | Released nat

record sys =
  sem :: nat
  pcs :: "pc list"
  gate_log :: "gate_event list"

definition init_sys :: "task list \<Rightarrow> sys" where
  "init_sys tasks = \<lparr>sem = 1, pcs = replicate (length tasks) NotStarted, gate_log = []\<rparr>"

definition step :: "task list \<Rightarrow> sys \<Rightarrow> nat \<times> runtime \<times> devices \<Rightarrow> sys" where
  "step tasks s = (\<lambda>(i, rt, devs).
     if i < length (pcs s) \<and> i < length tasks then
       (case pcs s ! i of
          NotStarted \<Rightarrow>
            (case cmd_enter rt devs (task_device (tasks ! i)) (task_request (tasks ! i)) of
               Inl e \<Rightarrow> s\<lparr>pcs := (pcs s)[i := Finished (Inl e)]\<rparr>
             | Inr (dev, call) \<Rightarrow> s\<lparr>pcs := (pcs s)[i := WaitingGate dev call]\<rparr>)
        | WaitingGate dev call \<Rightarrow>
            if 0 < sem s
            then s\<lparr>sem := sem s - 1, pcs := (pcs s)[i := InRadio dev call],
                   gate_log := gate_log s @ [Acquired i]\<rparr>
            else s
        | InRadio dev call \<Rightarrow>
            s\<lparr>sem := sem s + 1, pcs := (pcs s)[i := Finished (snd (do_call rt dev call))],
              gate_log := gate_log s @ [Released i]\<rparr>
        | Finished r \<Rightarrow> s)
     else s)"

definition run :: "task list \<Rightarrow> (nat \<times> runtime \<times> devices) list \<Rightarrow> sys" where
  "run tasks schedule = foldl (step tasks) (init_sys tasks) schedule"

fun in_radio :: "pc \<Rightarrow> bool" where
  "in_radio (InRadio dev call) = True"
| "in_radio _ = False"

text \<open>Replaying the log of the semaphore: the holder after the log (\<open>None\<close> when it is
  free), provided every acquisition finds it free and every release is by the holder.\<close>

fun gate_replay :: "nat option \<Rightarrow> gate_event list \<Rightarrow> nat option option" where
  "gate_replay h [] = Some h"
| "gate_replay h (Acquired i # es) = (if h = None then gate_replay (Some i) es else None)"
| "gate_replay h (Released i # es) = (if h = Some i then gate_replay None es else None)"

section \<open>Notions used to state the properties of the scan\<close>

text \<open>The names of the registered targets that some advertisement of a list matches, and
  the first advertisement of a list that matches a given name.\<close>

definition matched_names :: "lookup \<times> lookup \<Rightarrow> advert list \<Rightarrow> string set" where
  "matched_names maps as = set (filter (\<lambda>n. n \<noteq> []) (List.map_filter (matched_device_name maps) as))"





text \<open>The advertised name as the callback normalises it.\<close>

definition adv_name_l :: "advert \<Rightarrow> string" where
  "adv_name_l = (\<lambda>(dv, adv). lower (strip (str_or (local_name adv) (str_or (ble_name dv) []))))"

section \<open>Notions used to state the properties of the debouncer and the serializer\<close>

text \<open>No emission of the session is due at time \<open>t\<close>: there is no pending task, or its
  sleep ends later.\<close>

definition quiet_at :: "nat \<Rightarrow> ble_snooz \<Rightarrow> bool" where
  "quiet_at t d = (case event_task d of None \<Rightarrow> True | Some due \<Rightarrow> t < due)"


text \<open>The invariant of the interleaved commands: the log of the semaphore replays, the
  counter is 1 exactly when nobody holds it, and the task in the radio is the holder.\<close>

definition gate_inv :: "sys \<Rightarrow> bool" where
  "gate_inv s =
     (case gate_replay None (gate_log s) of
        None \<Rightarrow> False
      | Some h \<Rightarrow>
          (sem s = (if h = None then 1 else 0))
          \<and> (case h of None \<Rightarrow> True | Some k \<Rightarrow> k < length (pcs s))
          \<and> list_all (\<lambda>i. in_radio (pcs s ! i) = (h = Some i)) [0..<length (pcs s)])"

section \<open>Example data\<close>

text \<open>
  Two configured sessions, four advertisements, a bound copy of the second session and a
  runtime whose radio completes every call successfully. They are the concrete inputs at
  which the theorems below are instantiated.
\<close>

definition ex_bed :: ble_snooz where
  "ex_bed = new_ble_snooz ''bed'' ''aa:01'' ''00'' (Some ''Snooz-1'')"

definition ex_den :: ble_snooz where
  "ex_den = new_ble_snooz ''den'' ''bb:02'' ''00'' None"

definition ex_devs :: devices where
  "ex_devs = [(''bed'', ex_bed), (''den'', ex_den)]"



definition adv_den :: advert where
  "adv_den = (\<lparr>ble_address = ''BB:02'', ble_name = Some ''x''\<rparr>,
              \<lparr>local_name = None, manufacturer_data = []\<rparr>)"



definition ex_state :: snooz_device_state where
  "ex_state = \<lparr>st_on = Some True, st_volume = Some 30, st_light_on = None,
               st_light_brightness = None, st_night_mode_enabled = None\<rparr>"

definition ex_sd :: snooz_device where
  "ex_sd = \<lparr>sd_ble_device = fst adv_den, sd_is_connected = True,
            sd_connection_status = ''CONNECTED'', sd_state = Some ex_state\<rparr>"

definition ex_disc :: discovered_snooz where
  "ex_disc = \<lparr>disc_ble_device = fst adv_den, disc_advertisement_data = snd adv_den,
              disc_snooz_adv = \<lparr>adv_model = PRO, adv_firmware_version = ''V6'', adv_password = ''00''\<rparr>,
              disc_display_name = ''Snooz BB02''\<rparr>"

definition ex_den_bound :: ble_snooz where
  "ex_den_bound = ex_den\<lparr>device := Some ex_sd, discovered := Some ex_disc\<rparr>"

definition ex_devs_bound :: devices where
  "ex_devs_bound = [(''bed'', ex_bed), (''den'', ex_den_bound)]"

definition ex_result :: snooz_command_result where
  "ex_result = \<lparr>res_status = ''SUCCESSFUL'', res_duration = JNull, res_response = Jsonable JNull\<rparr>"

definition ex_rt :: runtime where
  "ex_rt = \<lparr>time_now = Finite 0 0, int_of_str = (\<lambda>s. None), str_of = (\<lambda>j. ''?''),
            execute = (\<lambda>sd call. Inr ex_result)\<rparr>"

definition ex_msg :: "string \<Rightarrow> string \<Rightarrow> (string \<times> json) list \<Rightarrow> (string \<times> json) list" where
  "ex_msg command dn args =
     [(''type'', JStr ''command''), (''request_id'', JStr ''x1''),
      (''command'', JStr command), (''device_name'', JStr dn)] @ args"

definition ex_tasks :: "task list" where
  "ex_tasks = [\<lparr>task_device = JStr ''den'', task_request = NoiseOn JNull\<rparr>,
               \<lparr>task_device = JStr ''den'', task_request = SetVolumeReq 20\<rparr>]"

definition ex_schedule :: "(nat \<times> runtime \<times> devices) list" where
  "ex_schedule = map (\<lambda>i. (i, ex_rt, ex_devs_bound)) [0, 1, 0, 1]"

text \<open>A library on which connecting always fails, and an advertisement that classifies as
  a supported device there.\<close>

definition ex_lib :: pysnooz where
  "ex_lib = \<lparr>FIRMWARE_PAIRING_FLAGS = 1,
             FIRMWARE_VERSION_BY_FLAGS = [6 \<mapsto> ''V6''],
             SNOOZ_ADVERTISEMENT_LENGTH = 3,
             get_device_display_name = (\<lambda>name addr. name),
             new_snooz_device = (\<lambda>b a. \<lparr>sd_ble_device = b, sd_is_connected = False,
                                          sd_connection_status = ''DISCONNECTED'', sd_state = None\<rparr>),
             async_get_info = (\<lambda>sd. (Some (LibraryError ''timeout''), sd)),
             has_api_and_store = (\<lambda>sd. True),
             async_read_state = (\<lambda>sd. Inl (LibraryError ''timeout'')),
             store_patch = (\<lambda>sd st. (True, sd\<lparr>sd_state := Some st\<rparr>))\<rparr>"

definition adv_den_snooz :: advert where
  "adv_den_snooz = (\<lparr>ble_address = ''BB:02'', ble_name = Some ''Snooz-AB''\<rparr>,
                    \<lparr>local_name = None, manufacturer_data = [(0xFFFF, [7, 0, 0])]\<rparr>)"

text \<open>Three notifications, 100 ms and 200 ms apart.\<close>

definition ex_burst :: "(nat \<times> snooz_device_state) list" where
  "ex_burst = [(0, ex_state\<lparr>st_volume := Some 10\<rparr>),
               (100, ex_state\<lparr>st_volume := Some 20\<rparr>),
               (300, ex_state\<lparr>st_volume := Some 40\<rparr>)]"

section \<open>Lemmas about the scan\<close>

lemma matched_names_Nil [simp]: "matched_names maps [] = {}"
  by (simp add: matched_names_def map_filter_simps)



















section \<open>Lemmas about the commands and the gateway\<close>








text \<open>On a ready session \<open>cmd_noise_on\<close> goes to the radio with whatever volume it is given:
  the outcome is that of the call on the device.\<close>

lemma cmd_noise_on_ready:
  assumes "map_of devs d = Some dev" and "device dev = Some sd" and "discovered dev \<noteq> None"
  shows "cmd_noise_on rt devs (JStr d) volume
           = ([GateAcquire, RadioCall sd (TurnOn volume), GateRelease], execute rt sd (TurnOn volume))"
  using assms
  by (simp add: cmd_noise_on_def cmd_def cmd_enter_def get_device_json_def get_device_def
        is_ready_def with_ble_lock_def do_call_def)






lemma non_object_frame_raises:
  "\<not> (\<exists>m. j = JObj m) \<Longrightarrow>
     sent (handle_message rt devs (Json j)) = [] \<and> raised (handle_message rt devs (Json j)) \<noteq> None"
  by (cases j) (simp_all add: handle_message_def)

section \<open>Lemmas about the serializer, the debouncer and the rescan\<close>

lemma gate_replay_snoc:
  "gate_replay h (es @ [e]) =
     (case gate_replay h es of None \<Rightarrow> None | Some h' \<Rightarrow> gate_replay h' [e])"
proof (induction es arbitrary: h)
  case Nil
  then show ?case by (cases e) simp_all
next
  case (Cons x es)
  then show ?case by (cases x) simp_all
qed

lemma gate_inv_init: "gate_inv (init_sys tasks)"
  by (simp add: gate_inv_def init_sys_def list_all_iff)

lemma gate_inv_step:
  assumes "gate_inv s"
  shows "gate_inv (step tasks s (i, rt, devs))"
proof (cases "i < length (pcs s) \<and> i < length tasks")
  case False
  then have "step tasks s (i, rt, devs) = s" by (auto simp: step_def)
  with assms show ?thesis by simp
next
  case True
  obtain h where h: "gate_replay None (gate_log s) = Some h"
    and sm: "sem s = (if h = None then 1 else 0)"
    and hk: "case h of None \<Rightarrow> True | Some k \<Rightarrow> k < length (pcs s)"
    and al: "\<forall>j<length (pcs s). in_radio (pcs s ! j) = (h = Some j)"
    using assms by (auto simp: gate_inv_def list_all_iff split: option.splits)
  show ?thesis
  proof (cases "pcs s ! i")
    case NotStarted
    with True al have hi: "h \<noteq> Some i" by auto
    show ?thesis
    proof (cases "cmd_enter rt devs (task_device (tasks ! i)) (task_request (tasks ! i))")
      case (Inl e)
      with True NotStarted h sm hk al hi show ?thesis
        by (auto simp: step_def gate_inv_def list_all_iff nth_list_update split: option.splits)
    next
      case (Inr p)
      with True NotStarted h sm hk al hi show ?thesis
        by (cases p) (auto simp: step_def gate_inv_def list_all_iff nth_list_update split: option.splits)
    qed
  next
    case (WaitingGate dev call)
    with True al have hi: "h \<noteq> Some i" by auto
    show ?thesis
    proof (cases "0 < sem s")
      case False
      with True WaitingGate assms show ?thesis by (simp add: step_def)
    next
      case pos: True
      with sm have hn: "h = None" by (auto split: if_splits)
      with True WaitingGate h sm hk al pos show ?thesis
        by (auto simp: step_def gate_inv_def list_all_iff nth_list_update gate_replay_snoc)
    qed
  next
    case (InRadio dev call)
    with True al have hi: "h = Some i" by auto
    with True InRadio h sm hk al show ?thesis
      by (auto simp: step_def gate_inv_def list_all_iff nth_list_update gate_replay_snoc)
  next
    case (Finished r)
    with True assms show ?thesis by (simp add: step_def)
  qed
qed

lemma gate_inv_foldl:
  "gate_inv s \<Longrightarrow> gate_inv (foldl (step tasks) s schedule)"
proof (induction schedule arbitrary: s)
  case Nil
  then show ?case by simp
next
  case (Cons e es)
  obtain i rt devs where "e = (i, rt, devs)" by (cases e)
  with Cons show ?case by (simp add: gate_inv_step)
qed

lemma gate_inv_run: "gate_inv (run tasks schedule)"
  unfolding run_def by (rule gate_inv_foldl[OF gate_inv_init])

lemma length_pcs_step: "length (pcs (step tasks s e)) = length (pcs s)"
  by (cases e) (auto simp: step_def split: pc.splits sum.splits prod.splits)

lemma length_pcs_run: "length (pcs (run tasks schedule)) = length tasks"
proof -
  have "length (pcs (foldl (step tasks) s schedule)) = length (pcs s)" for s
    by (induction schedule arbitrary: s) (simp_all add: length_pcs_step)
  then show ?thesis by (simp add: run_def init_sys_def)
qed

lemma solo_run_agrees:
  "pcs (run [t] [(0, rt, devs), (0, rt, devs), (0, rt, devs)]) ! 0
     = Finished (snd (cmd rt devs (task_device t) (task_request t)))"
proof (cases "cmd_enter rt devs (task_device t) (task_request t)")
  case (Inl e)
  then show ?thesis by (simp add: run_def init_sys_def step_def cmd_def)
next
  case (Inr p)
  then show ?thesis
    by (cases p) (simp add: run_def init_sys_def step_def cmd_def with_ble_lock_def split: prod.splits)
qed

lemma notify_quiet:
  "quiet_at t d \<Longrightarrow>
     notify (t, st) (d, out) = (set_state st d\<lparr>event_task := Some (t + debounce_ms)\<rparr>, out)"
  by (auto simp: notify_def run_until_def quiet_at_def on_state_change_def set_state_def
           split: option.splits)

lemma set_state_twice:
  "set_state st2 (set_state st1 d\<lparr>event_task := e\<rparr>) = set_state st2 d\<lparr>event_task := e\<rparr>"
  by (cases "device d") (simp_all add: set_state_def)

lemma notify_all_burst:
  "burst ((t, st) # ns) \<Longrightarrow> quiet_at t d \<Longrightarrow>
     notify_all ((t, st) # ns) (d, out)
       = (set_state (snd (last ((t, st) # ns))) d
            \<lparr>event_task := Some (fst (last ((t, st) # ns)) + debounce_ms)\<rparr>, out)"
proof (induction ns arbitrary: t st d)
  case Nil
  then show ?case by (simp add: notify_all_def notify_quiet)
next
  case (Cons n ns)
  obtain t2 s2 where n: "n = (t2, s2)" by (cases n)
  from Cons.prems(1) n have b: "burst ((t2, s2) # ns)" and lt: "t2 < t + debounce_ms" by simp_all
  let ?d1 = "set_state st d\<lparr>event_task := Some (t + debounce_ms)\<rparr>"
  have q: "quiet_at t2 ?d1" using lt by (simp add: quiet_at_def)
  have "notify_all ((t, st) # n # ns) (d, out) = notify_all ((t2, s2) # ns) (?d1, out)"
    using Cons.prems(2) by (simp add: notify_all_def n notify_quiet)
  also have "\<dots> = (set_state (snd (last ((t2, s2) # ns))) ?d1
            \<lparr>event_task := Some (fst (last ((t2, s2) # ns)) + debounce_ms)\<rparr>, out)"
    by (rule Cons.IH[OF b q])
  also have "set_state (snd (last ((t2, s2) # ns))) ?d1 = set_state (snd (last ((t2, s2) # ns))) d\<lparr>event_task := Some (t + debounce_ms)\<rparr>"
    by (rule set_state_twice)
  finally show ?case by (simp add: n)
qed

lemma refresh_state_ready:
  "is_ready d \<Longrightarrow> is_ready (snd (refresh_state lib now d))"
  by (auto simp: refresh_state_def is_ready_def on_state_change_def
           split: option.splits sum.splits prod.splits)

lemma start_ready:
  "is_ready d \<Longrightarrow> is_ready (snd (start lib now d))"
proof -
  assume r: "is_ready d"
  then obtain sd where sd: "device d = Some sd" by (auto simp: is_ready_def)
  obtain e sd' where g: "async_get_info lib sd = (e, sd')" by (cases "async_get_info lib sd")
  have r': "is_ready (d\<lparr>device := Some sd'\<rparr>)" using r by (simp add: is_ready_def)
  show ?thesis
  proof (cases e)
    case None
    with sd g show ?thesis using refresh_state_ready[OF r'] by (simp add: start_def)
  next
    case (Some x)
    with sd g r' show ?thesis by (simp add: start_def)
  qed
qed

lemma bind_discovery_True:
  "bind_discovery lib d a = (True, d1) \<Longrightarrow> is_ready d1"
  by (cases a) (auto simp: bind_discovery_def Let_def is_ready_def split: option.splits)

lemma bind_discovery_False:
  "bind_discovery lib d a = (False, d1) \<Longrightarrow> d1 = d"
  by (cases a) (auto simp: bind_discovery_def Let_def split: option.splits)

lemma rescan_bind_ready:
  "map_of devs n = Some dev \<Longrightarrow> is_ready dev \<Longrightarrow> rescan_bind lib now devs (n, a) = Inr devs"
  by (simp add: rescan_bind_def)

lemma rescan_bind_keeps:
  assumes "rescan_bind lib now devs m = Inr devs'"
    and "map_of devs n = Some dev" and "is_ready dev"
  shows "map_of devs' n = Some dev"
proof -
  obtain k a where m: "m = (k, a)" by (cases m)
  show ?thesis
  proof (cases "k = n")
    case True
    with assms m show ?thesis by (simp add: rescan_bind_def)
  next
    case False
    with assms m show ?thesis
      by (auto simp: rescan_bind_def update_conv' split: option.splits if_splits prod.splits bool.splits)
  qed
qed

lemma rescan_bind_distinct:
  assumes "rescan_bind lib now devs m = Inr devs'" and "distinct (map fst devs)"
  shows "distinct (map fst devs')"
  using assms
  by (cases m) (auto simp: rescan_bind_def distinct_update split: option.splits if_splits prod.splits bool.splits)

lemma bind_found_keeps:
  "map_of devs n = Some dev \<Longrightarrow> is_ready dev \<Longrightarrow> map_of (bind_found lib now devs fnd) n = Some dev"
proof (induction fnd arbitrary: devs)
  case Nil
  then show ?case by simp
next
  case (Cons m ms)
  show ?case
  proof (cases "rescan_bind lib now devs m")
    case (Inl e)
    with Cons.prems show ?thesis by simp
  next
    case (Inr devs')
    from rescan_bind_keeps[OF Inr Cons.prems] have "map_of devs' n = Some dev" .
    from Cons.IH[OF this Cons.prems(2)] Inr show ?thesis by simp
  qed
qed

lemma bind_found_distinct:
  "distinct (map fst devs) \<Longrightarrow> distinct (map fst (bind_found lib now devs fnd))"
proof (induction fnd arbitrary: devs)
  case Nil
  then show ?case by simp
next
  case (Cons m ms)
  show ?case
  proof (cases "rescan_bind lib now devs m")
    case (Inl e)
    with Cons.prems show ?thesis by simp
  next
    case (Inr devs')
    from Cons.IH[OF rescan_bind_distinct[OF Inr Cons.prems]] Inr show ?thesis by simp
  qed
qed

lemma rescan_tick_keeps:
  "map_of devs n = Some dev \<Longrightarrow> is_ready dev \<Longrightarrow>
     map_of (rescan_tick lib order now adverts devs) n = Some dev"
  by (auto simp: rescan_tick_def Let_def bind_found_keeps split: sum.splits prod.splits)

lemma rescan_tick_distinct:
  "distinct (map fst devs) \<Longrightarrow> distinct (map fst (rescan_tick lib order now adverts devs))"
  by (auto simp: rescan_tick_def Let_def bind_found_distinct split: sum.splits prod.splits)

lemma rescan_ticks_keeps:
  "map_of devs n = Some dev \<Longrightarrow> is_ready dev \<Longrightarrow>
     map_of (rescan_ticks lib order ticks devs) n = Some dev"
proof (induction ticks arbitrary: devs)
  case Nil
  then show ?case by (simp add: rescan_ticks_def)
next
  case (Cons t ts)
  obtain now adverts where t: "t = (now, adverts)" by (cases t)
  from Cons.IH[OF rescan_tick_keeps[OF Cons.prems, of lib order now adverts] Cons.prems(2)]
  show ?case by (simp add: rescan_ticks_def t)
qed

lemma rescan_ticks_distinct:
  "distinct (map fst devs) \<Longrightarrow> distinct (map fst (rescan_ticks lib order ticks devs))"
proof (induction ticks arbitrary: devs)
  case Nil
  then show ?case by (simp add: rescan_ticks_def)
next
  case (Cons t ts)
  obtain now adverts where t: "t = (now, adverts)" by (cases t)
  from Cons.IH[OF rescan_tick_distinct[OF Cons.prems, of lib order now adverts]]
  show ?case by (simp add: rescan_ticks_def t)
qed

lemma missing_names_iff:
  assumes "distinct (map fst devs)"
  shows "n \<in> set (missing_names devs) \<longleftrightarrow> (\<exists>d. map_of devs n = Some d \<and> \<not> is_ready d)"
proof
  assume "n \<in> set (missing_names devs)"
  then obtain d where "(n, d) \<in> set devs" "\<not> is_ready d" by (auto simp: missing_names_def)
  with assms show "\<exists>d. map_of devs n = Some d \<and> \<not> is_ready d" by auto
next
  assume "\<exists>d. map_of devs n = Some d \<and> \<not> is_ready d"
  then obtain d where "map_of devs n = Some d" "\<not> is_ready d" by blast
  then have "(n, d) \<in> set devs" by (auto dest: map_of_SomeD)
  with \<open>\<not> is_ready d\<close> show "n \<in> set (missing_names devs)"
    by (force simp: missing_names_def)
qed

lemma rescan_bind_binds:
  assumes "map_of devs n = Some dev" and "\<not> is_ready dev" and "fst (bind_discovery lib dev a)"
  shows "\<exists>devs' dev2. rescan_bind lib now devs (n, a) = Inr devs'
           \<and> map_of devs' n = Some dev2 \<and> is_ready dev2
           \<and> dev2 = snd (start lib now (snd (bind_discovery lib dev a)))"
proof -
  obtain dev1 where b: "bind_discovery lib dev a = (True, dev1)"
    using assms(3) by (cases "bind_discovery lib dev a") auto
  have "is_ready dev1" using bind_discovery_True[OF b] .
  then have "is_ready (snd (start lib now dev1))" by (rule start_ready)
  with assms(1,2) b show ?thesis by (simp add: rescan_bind_def update_conv')
qed

section \<open>Claims\<close>

subsection \<open>C1: the radio transactions of commands never overlap\<close>

text \<open>
  C1: for any set of commands in flight (each one of \<open>noise_on\<close>, \<open>noise_off\<close>,
  \<open>set_volume\<close>, \<open>light_on\<close>, \<open>light_off\<close>, \<open>set_light_brightness\<close>, on the same or on
  different devices) and any schedule of the event loop, in the state reached:
  \<^item> at most one command is in its radio transaction;
  \<^item> the semaphore's counter never exceeds 1, and it is 1 exactly when no command is in its
    radio transaction;
  \<^item> acquisitions and releases alternate in the log, each release by the holder, and the
    command in its radio transaction is the holder;
  \<^item> when the transaction of the holder ends, whether with a result or with an exception,
    the semaphore is given back in the same step.

  Moreover each command, run on its own, either raises before it reaches the semaphore and
  leaves the radio alone, or makes exactly one call on the device, between taking and giving
  back the semaphore.
\<close>

theorem gate_mutual_exclusion:
  assumes s: "s = run tasks schedule"
  shows "(\<forall>i<length tasks. \<forall>j<length tasks. in_radio (pcs s ! i) \<and> in_radio (pcs s ! j) \<longrightarrow> i = j)
       \<and> sem s \<le> 1
       \<and> (sem s = 1) = (\<forall>i<length tasks. \<not> in_radio (pcs s ! i))
       \<and> (\<exists>h. gate_replay None (gate_log s) = Some h
              \<and> (\<forall>i<length tasks. in_radio (pcs s ! i) = (h = Some i)))
       \<and> (\<forall>i dev call rt devs. i < length tasks \<and> pcs s ! i = InRadio dev call \<longrightarrow>
              sem (step tasks s (i, rt, devs)) = 1
            \<and> pcs (step tasks s (i, rt, devs)) ! i = Finished (snd (do_call rt dev call))
            \<and> gate_log (step tasks s (i, rt, devs)) = gate_log s @ [Released i])
       \<and> (\<forall>rt devs dn req. fst (cmd rt devs dn req) = []
              \<or> (\<exists>sd. fst (cmd rt devs dn req) = [GateAcquire, RadioCall sd (call_of req), GateRelease]))"
proof -
  have inv: "gate_inv s" unfolding s by (rule gate_inv_run)
  have len: "length (pcs s) = length tasks" unfolding s by (rule length_pcs_run)
  obtain h where h: "gate_replay None (gate_log s) = Some h"
    and sm: "sem s = (if h = None then 1 else 0)"
    and hk: "case h of None \<Rightarrow> True | Some k \<Rightarrow> k < length tasks"
    and al: "\<forall>j<length tasks. in_radio (pcs s ! j) = (h = Some j)"
    using inv len by (auto simp: gate_inv_def list_all_iff split: option.splits)
  have A: "\<forall>i<length tasks. \<forall>j<length tasks. in_radio (pcs s ! i) \<and> in_radio (pcs s ! j) \<longrightarrow> i = j"
    using al by auto
  have B: "sem s \<le> 1" using sm by simp
  have C: "(sem s = 1) = (\<forall>i<length tasks. \<not> in_radio (pcs s ! i))"
    using sm hk al by (cases h) auto
  have D: "\<exists>h. gate_replay None (gate_log s) = Some h
              \<and> (\<forall>i<length tasks. in_radio (pcs s ! i) = (h = Some i))"
    using h al by blast
  have E: "\<forall>i dev call rt devs. i < length tasks \<and> pcs s ! i = InRadio dev call \<longrightarrow>
              sem (step tasks s (i, rt, devs)) = 1
            \<and> pcs (step tasks s (i, rt, devs)) ! i = Finished (snd (do_call rt dev call))
            \<and> gate_log (step tasks s (i, rt, devs)) = gate_log s @ [Released i]"
  proof (intro allI impI)
    fix i dev call rt devs
    assume a: "i < length tasks \<and> pcs s ! i = InRadio dev call"
    with al have "h = Some i" by auto
    with sm have "sem s = 0" by simp
    with a len show "sem (step tasks s (i, rt, devs)) = 1
            \<and> pcs (step tasks s (i, rt, devs)) ! i = Finished (snd (do_call rt dev call))
            \<and> gate_log (step tasks s (i, rt, devs)) = gate_log s @ [Released i]"
      by (simp add: step_def)
  qed
  have F: "\<forall>rt devs dn req. fst (cmd rt devs dn req) = []
              \<or> (\<exists>sd. fst (cmd rt devs dn req) = [GateAcquire, RadioCall sd (call_of req), GateRelease])"
    by (auto simp: cmd_def cmd_enter_def with_ble_lock_def do_call_def is_ready_def
             split: sum.splits option.splits if_splits)
  from A B C D E F show ?thesis by (intro conjI)
qed


text \<open>C1 for two commands on the session \<open>den\<close>: after both have reached the semaphore the
  first is in the radio, the second is not, and the end of the first frees the semaphore.\<close>

theorem gate_mutual_exclusion_witness:
  "in_radio (pcs (run ex_tasks ex_schedule) ! 0)
   \<and> \<not> in_radio (pcs (run ex_tasks ex_schedule) ! 1)
   \<and> sem (run ex_tasks ex_schedule) = 0
   \<and> sem (step ex_tasks (run ex_tasks ex_schedule) (0, ex_rt, ex_devs_bound)) = 1"
proof -
  let ?s = "run ex_tasks ex_schedule"
  note R = gate_mutual_exclusion[of ?s ex_tasks ex_schedule, OF refl]
  have l: "length ex_tasks = 2" by (simp add: ex_tasks_def)
  have p0: "pcs ?s ! 0 = InRadio ex_den_bound (TurnOn JNull)" by code_simp
  then have a: "in_radio (pcs ?s ! 0)" by simp
  have b: "\<not> in_radio (pcs ?s ! 1)"
  proof
    assume "in_radio (pcs ?s ! 1)"
    moreover have "(0::nat) < length ex_tasks" and "(1::nat) < length ex_tasks"
      by (simp_all add: l)
    ultimately have "(0::nat) = 1" using a R[THEN conjunct1] by blast
    then show False by simp
  qed
  have c: "sem ?s = 0"
  proof -
    from R have "(sem ?s = 1) = (\<forall>i<length ex_tasks. \<not> in_radio (pcs ?s ! i))" by blast
    with a l have "sem ?s \<noteq> 1" by auto
    moreover from R have "sem ?s \<le> 1" by blast
    ultimately show ?thesis by simp
  qed
  have d: "sem (step ex_tasks ?s (0, ex_rt, ex_devs_bound)) = 1"
    using R[THEN conjunct2, THEN conjunct2, THEN conjunct2, THEN conjunct2, THEN conjunct1] p0 l by simp
  from a b c d show ?thesis by (intro conjI)
qed

subsection \<open>C2: debounced state events\<close>

text \<open>
  C2: let a bound session have no emission due when a burst of \<open>N \<ge> 1\<close> notifications
  begins, consecutive notifications being less than 250 ms apart, and let \<open>tN\<close> and \<open>sN\<close>
  be the time and the state of the last one. Then during the burst nothing is emitted and
  each notification replaces the pending task by one due 250 ms later; before
  \<open>tN + 250\<close> nothing is emitted; once the clock reaches \<open>tN + 250\<close> exactly one event
  has been emitted, at \<open>tN + 250\<close>, and no further one follows; the snapshot in that event
  shows the state \<open>sN\<close>.
\<close>

theorem debounce_coalesces:
  assumes "ns \<noteq> []" and "burst ns" and "quiet_at (fst (hd ns)) d0"
    and "device d0 = Some sd"
    and "notify_all ns (d0, out0) = (d, out)"
    and "tN = fst (last ns)" and "sN = snd (last ns)"
  shows "out = out0
       \<and> event_task d = Some (tN + debounce_ms)
       \<and> device d = Some (sd\<lparr>sd_state := Some sN\<rparr>)
       \<and> (\<forall>T. T < tN + debounce_ms \<longrightarrow> run_until T (d, out) = (d, out0))
       \<and> (\<forall>T. tN + debounce_ms \<le> T \<longrightarrow>
             run_until T (d, out)
               = (d\<lparr>event_task := None\<rparr>, out0 @ [(tN + debounce_ms, device_state_event d)])
           \<and> (\<forall>T'. run_until T' (run_until T (d, out)) = run_until T (d, out)))
       \<and> field (field (device_state_event d) ''state'') ''state''
            = JObj [(''on'', opt_bool (st_on sN)), (''volume'', opt_int (st_volume sN)),
                    (''light_on'', opt_bool (st_light_on sN)),
                    (''light_brightness'', opt_int (st_light_brightness sN)),
                    (''night_mode_enabled'', opt_bool (st_night_mode_enabled sN))]"
proof -
  obtain t st rest where ns: "ns = (t, st) # rest" using assms(1) by (cases ns) auto
  have q: "quiet_at t d0" using assms(3) ns by simp
  have b: "burst ((t, st) # rest)" using assms(2) ns by simp
  have "notify_all ns (d0, out0)
       = (set_state sN d0\<lparr>event_task := Some (tN + debounce_ms)\<rparr>, out0)"
    using notify_all_burst[OF b q, of out0] assms(6,7) ns by simp
  with assms(5) have d: "d = set_state sN d0\<lparr>event_task := Some (tN + debounce_ms)\<rparr>"
    and o: "out = out0" by simp_all
  have A: "event_task d = Some (tN + debounce_ms)" by (simp add: d)
  have B: "device d = Some (sd\<lparr>sd_state := Some sN\<rparr>)"
    using assms(4) by (simp add: d set_state_def)
  have C: "\<forall>T. T < tN + debounce_ms \<longrightarrow> run_until T (d, out) = (d, out0)"
    using A o by (simp add: run_until_def)
  have D: "\<forall>T. tN + debounce_ms \<le> T \<longrightarrow>
             run_until T (d, out)
               = (d\<lparr>event_task := None\<rparr>, out0 @ [(tN + debounce_ms, device_state_event d)])
           \<and> (\<forall>T'. run_until T' (run_until T (d, out)) = run_until T (d, out))"
    using A o by (simp add: run_until_def)
  have E: "field (field (device_state_event d) ''state'') ''state''
            = JObj [(''on'', opt_bool (st_on sN)), (''volume'', opt_int (st_volume sN)),
                    (''light_on'', opt_bool (st_light_on sN)),
                    (''light_brightness'', opt_int (st_light_brightness sN)),
                    (''night_mode_enabled'', opt_bool (st_night_mode_enabled sN))]"
    using B by (simp add: device_state_event_def snapshot_def field_def dict_get_def Let_def)
  from o A B C D E show ?thesis by (intro conjI)
qed

text \<open>C2 for three notifications at 0, 100 and 300 ms: one event at 550 ms with the volume
  of the third.\<close>

theorem debounce_coalesces_witness:
  "burst ex_burst \<and> quiet_at 0 ex_den_bound
   \<and> snd (notify_all ex_burst (ex_den_bound, [])) = []
   \<and> event_task (fst (notify_all ex_burst (ex_den_bound, []))) = Some 550
   \<and> snd (run_until 549 (notify_all ex_burst (ex_den_bound, []))) = []
   \<and> snd (run_until 550 (notify_all ex_burst (ex_den_bound, [])))
       = [(550, device_state_event (fst (notify_all ex_burst (ex_den_bound, []))))]
   \<and> field (field (field (device_state_event (fst (notify_all ex_burst (ex_den_bound, [])))) ''state'')
         ''state'') ''volume'' = JInt 40"
proof -
  let ?d = "fst (notify_all ex_burst (ex_den_bound, []))"
  let ?out = "snd (notify_all ex_burst (ex_den_bound, []))"
  have h1: "ex_burst \<noteq> []" by (simp add: ex_burst_def)
  have h2: "burst ex_burst" by (simp add: ex_burst_def debounce_ms_def)
  have q0: "quiet_at 0 ex_den_bound"
    by (simp add: quiet_at_def ex_den_bound_def ex_den_def new_ble_snooz_def)
  have h3: "quiet_at (fst (hd ex_burst)) ex_den_bound"
    using q0 by (simp add: ex_burst_def)
  have h4: "device ex_den_bound = Some ex_sd" by (simp add: ex_den_bound_def)
  have h5: "notify_all ex_burst (ex_den_bound, []) = (?d, ?out)" by simp
  have t: "fst (last ex_burst) = 300" by (simp add: ex_burst_def)
  have v: "st_volume (snd (last ex_burst)) = Some 40" by (simp add: ex_burst_def)
  note R = debounce_coalesces[OF h1 h2 h3 h4 h5 refl refl]
  from R have a: "?out = []" by blast
  from R have b: "event_task ?d = Some 550" by (simp add: t debounce_ms_def)
  from R have "\<forall>T. T < fst (last ex_burst) + debounce_ms \<longrightarrow> run_until T (?d, ?out) = (?d, [])"
    by blast
  then have c: "snd (run_until 549 (notify_all ex_burst (ex_den_bound, []))) = []"
    by (simp add: t debounce_ms_def)
  from R have "\<forall>T. fst (last ex_burst) + debounce_ms \<le> T \<longrightarrow>
             run_until T (?d, ?out)
               = (?d\<lparr>event_task := None\<rparr>, [] @ [(fst (last ex_burst) + debounce_ms, device_state_event ?d)])
           \<and> (\<forall>T'. run_until T' (run_until T (?d, ?out)) = run_until T (?d, ?out))"
    by blast
  then have d: "snd (run_until 550 (notify_all ex_burst (ex_den_bound, [])))
       = [(550, device_state_event ?d)]"
    by (simp add: t debounce_ms_def)
  from R have "field (field (device_state_event ?d) ''state'') ''state''
            = JObj [(''on'', opt_bool (st_on (snd (last ex_burst)))), (''volume'', opt_int (st_volume (snd (last ex_burst)))),
                    (''light_on'', opt_bool (st_light_on (snd (last ex_burst)))),
                    (''light_brightness'', opt_int (st_light_brightness (snd (last ex_burst)))),
                    (''night_mode_enabled'', opt_bool (st_night_mode_enabled (snd (last ex_burst))))]"
    by blast
  then have e: "field (field (field (device_state_event ?d) ''state'') ''state'') ''volume'' = JInt 40"
    by (simp add: v field_def dict_get_def opt_int_def)
  from h2 q0 a b c d e show ?thesis by (intro conjI)
qed

subsection \<open>C3: matching rule of the discovery scan\<close>





subsection \<open>C4: termination of the discovery scan\<close>





subsection \<open>C5: state of an unbound session\<close>



subsection \<open>C6: volume out of range\<close>



subsection \<open>C7: volume argument of noise_on\<close>

text \<open>
  C7 says that \<open>noise_on\<close> with a volume outside 0..100 is answered with a validation error
  and never executed on the device. \<open>cmd_noise_on\<close> has no range check (\<open>cmd_set_volume\<close>
  has one): for \<open>volume = 150\<close> on the bound session \<open>den\<close> the semaphore is taken and the
  call \<open>turn_on(volume=150)\<close> is handed to the device; on a radio that completes the call
  the client receives an ok response. (Lemma \<open>cmd_noise_on_ready\<close>: for every volume the
  outcome is that of the call on the device.)
\<close>

theorem noise_on_volume_unchecked:
  "is_ready ex_den_bound
   \<and> handle_message ex_rt ex_devs_bound (Json (JObj (ex_msg ''noise_on'' ''den'' [(''volume'', JInt 150)])))
       = \<lparr>sent = [ok_response (JStr ''x1'')
                   (JObj [(''status'', JStr ''SUCCESSFUL''), (''duration_s'', JNull), (''response'', JNull)])],
          radio = [GateAcquire, RadioCall ex_sd (TurnOn (JInt 150)), GateRelease],
          raised = None\<rparr>"
  by (simp add: handle_message_def handle_command_def dispatch_def Let_def ex_msg_def dict_get_def
        device_commands_def cmd_noise_on_def cmd_def cmd_enter_def get_device_json_def get_device_def
        ex_devs_bound_def ex_den_bound_def ex_den_def new_ble_snooz_def is_ready_def with_ble_lock_def
        do_call_def ex_rt_def ex_result_def checked_def ensure_success_def result_to_dict_def
        ok_response_def)

subsection \<open>C8: one error response per failed message\<close>




subsection \<open>C9: the rescan binds only unbound sessions\<close>

text \<open>
  C9: in a pass of the rescan loop over a registry with distinct names,
  \<^item> the targets of the scan are exactly the registered sessions that are not ready;
  \<^item> the loop body leaves the registry as it is when the matched session is ready at that
    moment, and a whole pass leaves every ready session as it is;
  \<^item> when the matched session is not ready and \<open>bind_discovery\<close> succeeds, the session is
    ready after the loop body whatever \<open>start\<close> does (it is the session \<open>start\<close> leaves,
    also when \<open>start\<close> raises); it stays as it is through the rest of the pass and through
    any number of later passes, and it is not among the targets of any later scan.
\<close>

theorem rescan_only_unbound:
  assumes perm: "\<forall>xs. set (order xs) = set xs" and dist: "distinct (map fst devs)"
  shows "(\<forall>n. (n \<in> set (order (missing_names devs))) = (\<exists>d. map_of devs n = Some d \<and> \<not> is_ready d))
       \<and> (\<forall>n dev a. map_of devs n = Some dev \<and> is_ready dev \<longrightarrow>
              rescan_bind lib now devs (n, a) = Inr devs)
       \<and> (\<forall>n dev adverts. map_of devs n = Some dev \<and> is_ready dev \<longrightarrow>
              map_of (rescan_tick lib order now adverts devs) n = Some dev)
       \<and> (\<forall>n dev a. map_of devs n = Some dev \<and> \<not> is_ready dev \<and> fst (bind_discovery lib dev a) \<longrightarrow>
              (\<exists>devs' dev2. rescan_bind lib now devs (n, a) = Inr devs'
                 \<and> dev2 = snd (start lib now (snd (bind_discovery lib dev a)))
                 \<and> map_of devs' n = Some dev2 \<and> is_ready dev2
                 \<and> (\<forall>ms. map_of (bind_found lib now devs' ms) n = Some dev2)
                 \<and> (\<forall>ticks. map_of (rescan_ticks lib order ticks devs') n = Some dev2
                        \<and> n \<notin> set (order (missing_names (rescan_ticks lib order ticks devs'))))))"
proof -
  have A: "\<forall>n. (n \<in> set (order (missing_names devs))) = (\<exists>d. map_of devs n = Some d \<and> \<not> is_ready d)"
    using perm missing_names_iff[OF dist] by simp
  have B: "\<forall>n dev a. map_of devs n = Some dev \<and> is_ready dev \<longrightarrow>
              rescan_bind lib now devs (n, a) = Inr devs"
    by (simp add: rescan_bind_ready)
  have C: "\<forall>n dev adverts. map_of devs n = Some dev \<and> is_ready dev \<longrightarrow>
              map_of (rescan_tick lib order now adverts devs) n = Some dev"
    by (simp add: rescan_tick_keeps)
  have D: "\<forall>n dev a. map_of devs n = Some dev \<and> \<not> is_ready dev \<and> fst (bind_discovery lib dev a) \<longrightarrow>
              (\<exists>devs' dev2. rescan_bind lib now devs (n, a) = Inr devs'
                 \<and> dev2 = snd (start lib now (snd (bind_discovery lib dev a)))
                 \<and> map_of devs' n = Some dev2 \<and> is_ready dev2
                 \<and> (\<forall>ms. map_of (bind_found lib now devs' ms) n = Some dev2)
                 \<and> (\<forall>ticks. map_of (rescan_ticks lib order ticks devs') n = Some dev2
                        \<and> n \<notin> set (order (missing_names (rescan_ticks lib order ticks devs')))))"
  proof (intro allI impI)
    fix n dev a
    assume h: "map_of devs n = Some dev \<and> \<not> is_ready dev \<and> fst (bind_discovery lib dev a)"
    then obtain devs' dev2 where
      r: "rescan_bind lib now devs (n, a) = Inr devs'"
      and m: "map_of devs' n = Some dev2" and rd: "is_ready dev2"
      and e: "dev2 = snd (start lib now (snd (bind_discovery lib dev a)))"
      using rescan_bind_binds[of devs n dev lib a now] by blast
    have d': "distinct (map fst devs')" using rescan_bind_distinct[OF r dist] .
    have k: "\<forall>ticks. map_of (rescan_ticks lib order ticks devs') n = Some dev2
                        \<and> n \<notin> set (order (missing_names (rescan_ticks lib order ticks devs')))"
    proof
      fix ticks
      have k1: "map_of (rescan_ticks lib order ticks devs') n = Some dev2"
        using rescan_ticks_keeps[OF m rd] .
      have "distinct (map fst (rescan_ticks lib order ticks devs'))"
        using rescan_ticks_distinct[OF d'] .
      from missing_names_iff[OF this, of n] k1 rd perm
      have "n \<notin> set (order (missing_names (rescan_ticks lib order ticks devs')))" by simp
      with k1 show "map_of (rescan_ticks lib order ticks devs') n = Some dev2
                        \<and> n \<notin> set (order (missing_names (rescan_ticks lib order ticks devs')))" by simp
    qed
    have f: "\<forall>ms. map_of (bind_found lib now devs' ms) n = Some dev2"
      using bind_found_keeps[OF m rd] by simp
    from r e m rd f k
    show "\<exists>devs' dev2. rescan_bind lib now devs (n, a) = Inr devs'
                 \<and> dev2 = snd (start lib now (snd (bind_discovery lib dev a)))
                 \<and> map_of devs' n = Some dev2 \<and> is_ready dev2
                 \<and> (\<forall>ms. map_of (bind_found lib now devs' ms) n = Some dev2)
                 \<and> (\<forall>ticks. map_of (rescan_ticks lib order ticks devs') n = Some dev2
                        \<and> n \<notin> set (order (missing_names (rescan_ticks lib order ticks devs'))))"
      by blast
  qed
  from A B C D show ?thesis by (intro conjI)
qed


text \<open>C9 for the session \<open>den\<close>, bound from an advertisement while connecting fails.\<close>

theorem rescan_only_unbound_witness:
  "distinct (map fst ex_devs) \<and> \<not> is_ready ex_den
   \<and> fst (bind_discovery ex_lib ex_den adv_den_snooz)
   \<and> fst (start ex_lib 0 (snd (bind_discovery ex_lib ex_den adv_den_snooz))) = Some (LibraryError ''timeout'')
   \<and> (\<exists>devs' dev2. rescan_bind ex_lib 0 ex_devs (''den'', adv_den_snooz) = Inr devs'
         \<and> dev2 = snd (start ex_lib 0 (snd (bind_discovery ex_lib ex_den adv_den_snooz)))
         \<and> map_of devs' ''den'' = Some dev2 \<and> is_ready dev2
         \<and> ''den'' \<notin> set (id (missing_names (rescan_ticks ex_lib id [(30000, [adv_den_snooz])] devs'))))
   \<and> (''bed'' \<in> set (id (missing_names ex_devs_bound)))
   \<and> (''den'' \<notin> set (id (missing_names ex_devs_bound)))"
proof -
  have perm: "\<forall>xs :: string list. set (id xs) = set xs" by simp
  have d1: "distinct (map fst ex_devs)" by (simp add: ex_devs_def)
  have d2: "distinct (map fst ex_devs_bound)" by (simp add: ex_devs_bound_def)
  have nr: "\<not> is_ready ex_den" by (simp add: ex_den_def new_ble_snooz_def is_ready_def)
  have m: "map_of ex_devs ''den'' = Some ex_den" by (simp add: ex_devs_def)
  have b: "fst (bind_discovery ex_lib ex_den adv_den_snooz)" by code_simp
  have sf: "fst (start ex_lib 0 (snd (bind_discovery ex_lib ex_den adv_den_snooz))) = Some (LibraryError ''timeout'')"
    by code_simp
  note R1 = rescan_only_unbound[OF perm d1, of ex_lib 0]
  note R2 = rescan_only_unbound[OF perm d2, of ex_lib 0]
  from R1 m nr b have "\<exists>devs' dev2. rescan_bind ex_lib 0 ex_devs (''den'', adv_den_snooz) = Inr devs'
                 \<and> dev2 = snd (start ex_lib 0 (snd (bind_discovery ex_lib ex_den adv_den_snooz)))
                 \<and> map_of devs' ''den'' = Some dev2 \<and> is_ready dev2
                 \<and> (\<forall>ms. map_of (bind_found ex_lib 0 devs' ms) ''den'' = Some dev2)
                 \<and> (\<forall>ticks. map_of (rescan_ticks ex_lib id ticks devs') ''den'' = Some dev2
                        \<and> ''den'' \<notin> set (id (missing_names (rescan_ticks ex_lib id ticks devs'))))"
    by blast
  then have e: "\<exists>devs' dev2. rescan_bind ex_lib 0 ex_devs (''den'', adv_den_snooz) = Inr devs'
         \<and> dev2 = snd (start ex_lib 0 (snd (bind_discovery ex_lib ex_den adv_den_snooz)))
         \<and> map_of devs' ''den'' = Some dev2 \<and> is_ready dev2
         \<and> ''den'' \<notin> set (id (missing_names (rescan_ticks ex_lib id [(30000, [adv_den_snooz])] devs')))"
    by blast
  have mb: "map_of ex_devs_bound ''bed'' = Some ex_bed \<and> \<not> is_ready ex_bed"
    by (simp add: ex_devs_bound_def ex_bed_def new_ble_snooz_def is_ready_def)
  have md: "map_of ex_devs_bound ''den'' = Some ex_den_bound \<and> is_ready ex_den_bound"
    by (simp add: ex_devs_bound_def ex_den_bound_def is_ready_def)
  from R2[THEN conjunct1] mb have f: "''bed'' \<in> set (id (missing_names ex_devs_bound))" by blast
  from R2[THEN conjunct1] md have g: "''den'' \<notin> set (id (missing_names ex_devs_bound))" by auto
  from d1 nr b sf e f g show ?thesis by (intro conjI)
qed

subsection \<open>C10: readiness is checked before the range\<close>




end
